theory Spec2Isabelle
  imports Main "HOL-Library.Word"
begin

section \<open>Buffers, numbers and errors\<close>

text \<open>
  A Node \<open>Buffer\<close> is a list of bytes. JavaScript numbers that hold integers are
  modelled as \<open>int\<close>; the two products of the transparency rule are the only places
  where a value can leave the range in which doubles are exact, and they are rounded
  by \<open>fl\<close> below. An exception is a value of type \<open>error\<close>; a function that can
  throw returns \<open>error + 'a\<close> with \<open>Inl\<close> for the exception. Failures of the file
  system itself (a file that cannot be read) are outside the model.
\<close>

type_synonym byte = "8 word"
type_synonym buffer = "byte list"

datatype error = ERR_OUT_OF_RANGE | ERR_BUFFER_OUT_OF_BOUNDS | TypeError

record dimensions =
  width :: int
  height :: int

text \<open>\<open>buffer[i]\<close>: \<open>None\<close> is JavaScript's \<open>undefined\<close> for an index outside the buffer.\<close>

definition byteAt :: "buffer \<Rightarrow> int \<Rightarrow> int option" where
  "byteAt buf i = (if 0 \<le> i \<and> i < int (length buf) then Some (uint (buf ! nat i)) else None)"

text \<open>
  Node's \<open>boundsError(value, length)\<close> for an integer \<open>value\<close>: a buffer too short for
  any read of that size gives \<open>ERR_BUFFER_OUT_OF_BOUNDS\<close>, every other bad offset
  \<open>ERR_OUT_OF_RANGE\<close>.
\<close>

definition boundsError :: "int \<Rightarrow> int \<Rightarrow> error" where
  "boundsError v l = (if l < 0 then ERR_BUFFER_OUT_OF_BOUNDS else ERR_OUT_OF_RANGE)"

text \<open>
  \<open>buffer.readUInt32BE(offset)\<close> and \<open>buffer.readUInt16BE(offset)\<close> as Node implements
  them: the first and the last byte are fetched, an \<open>undefined\<close> one throws, otherwise
  the bytes are combined most significant first.
\<close>

definition readUInt32BE :: "buffer \<Rightarrow> int \<Rightarrow> error + int" where
  "readUInt32BE buf off =
     (case (byteAt buf off, byteAt buf (off + 3)) of
        (Some b0, Some b3) \<Rightarrow>
          Inr (b0 * 2 ^ 24 + the (byteAt buf (off + 1)) * 2 ^ 16
               + the (byteAt buf (off + 2)) * 2 ^ 8 + b3)
      | _ \<Rightarrow> Inl (boundsError off (int (length buf) - 4)))"

definition readUInt16BE :: "buffer \<Rightarrow> int \<Rightarrow> error + int" where
  "readUInt16BE buf off =
     (case (byteAt buf off, byteAt buf (off + 1)) of
        (Some b0, Some b1) \<Rightarrow> Inr (b0 * 2 ^ 8 + b1)
      | _ \<Rightarrow> Inl (boundsError off (int (length buf) - 2)))"

text \<open>\<open>buffer.slice(0, n).toString("hex")\<close>: two lower-case hexadecimal digits per byte.\<close>

definition hexDigit :: "nat \<Rightarrow> char" where
  "hexDigit n = ''0123456789abcdef'' ! n"

definition hexByte :: "byte \<Rightarrow> string" where
  "hexByte b = [hexDigit (unat b div 16), hexDigit (unat b mod 16)]"

definition toHex :: "buffer \<Rightarrow> string" where
  "toHex buf = concat (map hexByte buf)"

definition slice0 :: "nat \<Rightarrow> buffer \<Rightarrow> buffer" where
  "slice0 n buf = take n buf"

section \<open>The dimension reader\<close>

text \<open>
  The \<open>while\<close> loop of \<open>getImageDimensions\<close> (lines 36 to 51), started at \<open>i\<close>. Each
  round adds at least 2 to \<open>i\<close>, so the loop ends.
\<close>

function scanSegments :: "buffer \<Rightarrow> int \<Rightarrow> error + dimensions option" where
  "scanSegments buf i =
     (if i < int (length buf) then
        (case readUInt16BE buf (i + 2) of
           Inl e \<Rightarrow> Inl e
         | Inr segmentLength \<Rightarrow>
             if byteAt buf i = Some 0xff
                \<and> (case byteAt buf (i + 1) of Some b \<Rightarrow> b \<ge> 0xc0 \<and> b \<le> 0xc3 | None \<Rightarrow> False)
             then (case readUInt16BE buf (i + 5) of
                     Inl e \<Rightarrow> Inl e
                   | Inr h \<Rightarrow>
                       (case readUInt16BE buf (i + 7) of
                          Inl e \<Rightarrow> Inl e
                        | Inr w \<Rightarrow> Inr (Some \<lparr>width = w, height = h\<rparr>)))
             else scanSegments buf (i + segmentLength + 2))
      else Inr None)"
  by pat_completeness auto
termination
proof (relation "measure (\<lambda>(buf, i). nat (int (length buf) - i))")
  show "wf (measure (\<lambda>(buf, i). nat (int (length buf) - i)))"
    by simp
next
  fix buf :: buffer and i segmentLength :: int
  assume "i < int (length buf)" and "readUInt16BE buf (i + 2) = Inr segmentLength"
  then have "0 \<le> segmentLength"
    by (auto simp: readUInt16BE_def byteAt_def split: if_splits)
  with \<open>i < int (length buf)\<close>
  show "((buf, i + segmentLength + 2), (buf, i))
          \<in> measure (\<lambda>(buf, i). nat (int (length buf) - i))"
    by simp
qed

definition getImageDimensions :: "buffer \<Rightarrow> error + dimensions option" where
  "getImageDimensions buf =
     (if toHex (slice0 8 buf) = ''89504e470d0a1a0a'' then
        (case readUInt32BE buf 16 of
           Inl e \<Rightarrow> Inl e
         | Inr w \<Rightarrow>
             (case readUInt32BE buf 20 of
                Inl e \<Rightarrow> Inl e
              | Inr h \<Rightarrow> Inr (Some \<lparr>width = w, height = h\<rparr>)))
      else if toHex (slice0 2 buf) = ''ff d8'' then
        scanSegments buf 2
      else Inr None)"


section \<open>Strings and paths\<close>

text \<open>
  \<open>s.includes(pat)\<close> and \<open>s.replace(pat, rep)\<close> with a string pattern, which replaces
  the first occurrence only. Both replacements of the source are the empty string.
\<close>

primrec str_includes :: "string \<Rightarrow> string \<Rightarrow> bool" where
  "str_includes [] pat = (pat = [])"
| "str_includes (c # cs) pat = (take (length pat) (c # cs) = pat \<or> str_includes cs pat)"

primrec str_replace :: "string \<Rightarrow> string \<Rightarrow> string \<Rightarrow> string" where
  "str_replace [] pat rep = (if pat = [] then rep else [])"
| "str_replace (c # cs) pat rep =
     (if take (length pat) (c # cs) = pat then rep @ drop (length pat) (c # cs)
      else c # str_replace cs pat rep)"

text \<open>\<open>s.toLowerCase()\<close> on the ASCII letters; every other character is kept.\<close>

definition toLowerChar :: "char \<Rightarrow> char" where
  "toLowerChar c =
     (case map_of (zip ''ABCDEFGHIJKLMNOPQRSTUVWXYZ'' ''abcdefghijklmnopqrstuvwxyz'') c of
        Some l \<Rightarrow> l
      | None \<Rightarrow> c)"

definition toLowerCase :: "string \<Rightarrow> string" where
  "toLowerCase s = map toLowerChar s"

text \<open>
  \<open>path.extname(name)\<close> for a directory entry's name, which holds no \<open>/\<close>: the text
  from the last dot on, and the empty string when there is no dot, when the only dot
  is the first character, or when the name is \<open>..\<close>.
\<close>

definition extname :: "string \<Rightarrow> string" where
  "extname name =
     (let suffix = rev (takeWhile (\<lambda>c. c \<noteq> CHR ''.'') (rev name));
          startDot = length name - length suffix - 1
      in if CHR ''.'' \<notin> set name \<or> startDot = 0 \<or> name = ''..'' then []
         else drop startDot name)"

text \<open>
  \<open>path.join(dirPath, entry.name)\<close> and \<open>path.relative(FOLDER_PATH, fullPath)\<close> on the
  paths the traversal builds: names are appended after a \<open>/\<close>, and every full path
  lies below \<open>FOLDER_PATH\<close>.
\<close>

definition FOLDER_PATH :: string where
  "FOLDER_PATH = ''src/assets''"

definition join :: "string \<Rightarrow> string \<Rightarrow> string" where
  "join dirPath name = dirPath @ ''/'' @ name"

definition relative :: "string \<Rightarrow> string \<Rightarrow> string" where
  "relative from to = drop (length from + 1) to"

text \<open>The regular expressions \<open>/^0x[0-9a-f]{40}$/i\<close> and \<open>/^0x[0-9a-f]{96}$/i\<close>.\<close>

definition isHexDigit :: "char \<Rightarrow> bool" where
  "isHexDigit c = (c \<in> set ''0123456789abcdefABCDEF'')"

definition hexAddress :: "nat \<Rightarrow> string \<Rightarrow> bool" where
  "hexAddress n s =
     (case s of
        c0 # c1 # digits \<Rightarrow>
          c0 = CHR ''0'' \<and> (c1 = CHR ''x'' \<or> c1 = CHR ''X'')
          \<and> length digits = n \<and> list_all isHexDigit digits
      | _ \<Rightarrow> False)"

definition tokenRegex :: "string \<Rightarrow> bool" where
  "tokenRegex s = hexAddress 40 s"

definition validatorRegex :: "string \<Rightarrow> bool" where
  "validatorRegex s = hexAddress 96 s"

text \<open>A number in a template string: decimal digits. \<open>undefined\<close> prints as its name.\<close>

fun showNat :: "nat \<Rightarrow> string" where
  "showNat n =
     (if n < 10 then [''0123456789'' ! n]
      else showNat (n div 10) @ [''0123456789'' ! (n mod 10)])"

definition showInt :: "int \<Rightarrow> string" where
  "showInt k = (if k < 0 then ''-'' @ showNat (nat (- k)) else showNat (nat k))"

definition showWidth :: "dimensions option \<Rightarrow> string" where
  "showWidth dims = (case dims of None \<Rightarrow> ''undefined'' | Some d \<Rightarrow> showInt (width d))"

definition showHeight :: "dimensions option \<Rightarrow> string" where
  "showHeight dims = (case dims of None \<Rightarrow> ''undefined'' | Some d \<Rightarrow> showInt (height d))"

section \<open>Double arithmetic on integers\<close>

text \<open>
  A product of two integers below \<open>2 ^ 32\<close> is rounded to the nearest double, ties to
  the even significand; integers up to \<open>2 ^ 53\<close> are exact. \<open>a % b\<close> takes the sign
  of \<open>a\<close>.
\<close>

fun bitLength :: "nat \<Rightarrow> nat" where
  "bitLength n = (if n = 0 then 0 else Suc (bitLength (n div 2)))"

definition fl :: "int \<Rightarrow> int" where
  "fl k =
     (if \<bar>k\<bar> \<le> 2 ^ 53 then k
      else let e = bitLength (nat \<bar>k\<bar>) - 53;
               q = \<bar>k\<bar> div 2 ^ e;
               r = \<bar>k\<bar> mod 2 ^ e
           in sgn k * (if 2 * r > 2 ^ e \<or> (2 * r = 2 ^ e \<and> odd q) then (q + 1) * 2 ^ e
                       else q * 2 ^ e))"

definition js_rem :: "int \<Rightarrow> int \<Rightarrow> int" where
  "js_rem a b = sgn a * (\<bar>a\<bar> mod \<bar>b\<bar>)"

section \<open>The asset validator\<close>

text \<open>
  What ends a run early: an uncaught exception, or \<open>process.exit(code)\<close>, recorded with
  the lines the function wrote to the console just before it.
\<close>

datatype abort = Throw error | Exit "string list" nat

definition tokenNameError :: "string \<Rightarrow> string" where
  "tokenNameError relativePath =
     relativePath @ '': Invalid file name! Must be a valid token address.''"

definition validatorNameError :: "string \<Rightarrow> string" where
  "validatorNameError relativePath =
     relativePath @ '': Invalid file name! Must be a valid validator pubkey address.''"

definition dimensionError :: "string \<Rightarrow> dimensions option \<Rightarrow> string" where
  "dimensionError relativePath dims =
     relativePath @ '': Invalid (Dimensions: '' @ showWidth dims @ ''x'' @ showHeight dims
       @ '')! Must be 1024x1024 pixels.''"

definition transparencyError :: "string \<Rightarrow> string" where
  "transparencyError relativePath =
     relativePath @ '': Invalid image! Image cannot be transparent!''"

text \<open>Lines 84 to 106: the naming rule.\<close>

definition validateFileName :: "string \<Rightarrow> string \<Rightarrow> string list \<Rightarrow> string list" where
  "validateFileName relativePath ext errors =
     (if str_includes relativePath ''tokens'' then
        (if \<not> tokenRegex (str_replace (str_replace relativePath ext []) ''tokens/'' [])
         then errors @ [tokenNameError relativePath] else errors)
      else if str_includes relativePath ''validators'' then
        (if \<not> validatorRegex (str_replace (str_replace relativePath ext []) ''validators/'' [])
         then errors @ [validatorNameError relativePath] else errors)
      else errors)"

text \<open>Lines 109 to 118: the dimension rule.\<close>

definition validateDimensions :: "string \<Rightarrow> dimensions option \<Rightarrow> string list \<Rightarrow> string list" where
  "validateDimensions relativePath dims errors =
     (if (case dims of
            None \<Rightarrow> True
          | Some d \<Rightarrow> width d < 1024 \<or> height d < 1024 \<or> width d \<noteq> height d)
      then errors @ [dimensionError relativePath dims] else errors)"

text \<open>Lines 121 to 145: the transparency rule, with its four reads in the source's order.\<close>

definition validateTransparency ::
  "string \<Rightarrow> string \<Rightarrow> buffer \<Rightarrow> dimensions option \<Rightarrow> string list \<Rightarrow> error + string list" where
  "validateTransparency relativePath ext buf dims errors =
     (case dims of
        None \<Rightarrow> Inr errors
      | Some d \<Rightarrow>
          if ext \<noteq> ''.png'' then Inr errors
          else
            (case readUInt32BE buf 0 of
               Inl e \<Rightarrow> Inl e
             | Inr topLeftPixel \<Rightarrow>
            (case readUInt32BE buf (width d - 1) of
               Inl e \<Rightarrow> Inl e
             | Inr topRightPixel \<Rightarrow>
            (case readUInt32BE buf
                    (js_rem (fl (width d * (height d - 1))) (int (length buf))) of
               Inl e \<Rightarrow> Inl e
             | Inr bottomLeftPixel \<Rightarrow>
            (case readUInt32BE buf
                    (min (fl (fl (width d * height d) - 1)) (int (length buf) - 4)) of
               Inl e \<Rightarrow> Inl e
             | Inr bottomRightPixel \<Rightarrow>
                 Inr (if topLeftPixel = 0 \<or> topRightPixel = 0
                         \<or> bottomLeftPixel = 0 \<or> bottomRightPixel = 0
                      then errors @ [transparencyError relativePath] else errors))))))"

text \<open>
  Lines 77 to 149: a file that is not on the allow list. \<open>getImageDimensions\<close> is called
  first, so its exception comes before any rule.
\<close>

definition processFile :: "string \<Rightarrow> string \<Rightarrow> buffer \<Rightarrow> string list \<Rightarrow> abort + string list" where
  "processFile fullPath name buf errors =
     (let ext = toLowerCase (extname name) in
      if ext = ''.png'' \<or> ext = ''.jpg'' \<or> ext = ''.jpeg'' then
        (case getImageDimensions buf of
           Inl e \<Rightarrow> Inl (Throw e)
         | Inr dims \<Rightarrow>
             let relativePath = relative FOLDER_PATH fullPath;
                 errors1 = validateFileName relativePath ext errors;
                 errors2 = validateDimensions relativePath dims errors1
             in (case validateTransparency relativePath ext buf dims errors2 of
                   Inl e \<Rightarrow> Inl (Throw e)
                 | Inr errors3 \<Rightarrow> Inr errors3))
      else Inl (Exit [fullPath @ '': Unsupported file type!''] 1))"

text \<open>
  A directory listing: each entry is a directory with its own listing, or a file with
  its bytes. \<open>processEntry\<close> is the body of the \<open>for\<close> loop of \<open>processDirectory\<close>.
\<close>

datatype entry = Dir string "entry list" | File string buffer

definition allowList :: "string list" where
  "allowList = [''.DS_Store'', ''validator-default.png'']"

fun processEntry :: "string \<Rightarrow> entry \<Rightarrow> string list \<Rightarrow> abort + string list"
  and processDirectory :: "string \<Rightarrow> entry list \<Rightarrow> string list \<Rightarrow> abort + string list" where
  "processEntry dirPath (Dir name entries) errors =
     processDirectory (join dirPath name) entries errors"
| "processEntry dirPath (File name buf) errors =
     (if name \<in> set allowList then Inr errors
      else processFile (join dirPath name) name buf errors)"
| "processDirectory dirPath [] errors = Inr errors"
| "processDirectory dirPath (entry # entries) errors =
     (case processEntry dirPath entry errors of
        Inl a \<Rightarrow> Inl a
      | Inr errors' \<Rightarrow> processDirectory dirPath entries errors')"

definition red :: "string \<Rightarrow> string" where
  "red s = [CHR 0x1B] @ ''[31m'' @ s @ [CHR 0x1B] @ ''[0m''"


definition validateAssetsImages :: "entry list \<Rightarrow> abort + unit" where
  "validateAssetsImages assets =
     (case processDirectory FOLDER_PATH assets [] of
        Inl a \<Rightarrow> Inl a
      | Inr errors \<Rightarrow>
          if length errors > 0
          then Inl (Exit ((showNat (length errors) @ '' Errors found in assets folder:'')
                          # map red errors) 1)
          else Inr ())"


section \<open>The metadata cross-checker\<close>


record entity =
  address :: "string option"
  id' :: "string option"
  stakingTokenAddress :: "string option"

















section \<open>The script\<close>



section \<open>Notions of the specification\<close>

text \<open>
  The PNG signature and the JPEG start-of-image marker as bytes, and the big-endian
  unsigned 32-bit integer at a byte offset of a buffer.
\<close>

definition PNG_SIGNATURE :: buffer where
  "PNG_SIGNATURE = [0x89, 0x50, 0x4E, 0x47, 0x0D, 0x0A, 0x1A, 0x0A]"

definition JPEG_SOI :: buffer where
  "JPEG_SOI = [0xFF, 0xD8]"

definition be32 :: "buffer \<Rightarrow> nat \<Rightarrow> int" where
  "be32 buf off = uint (word_rcat (take 4 (drop off buf)) :: 32 word)"

text \<open>
  The base file name in the specification's words: the relative path without the
  file's extension at its end and without the folder prefix at its start.
\<close>

definition spec_baseName :: "string \<Rightarrow> string \<Rightarrow> string \<Rightarrow> string" where
  "spec_baseName folder name relativePath =
     (let stem = take (length relativePath - length (extname name)) relativePath
      in if take (length folder) stem = folder then drop (length folder) stem else stem)"

text \<open>
  The files of a listing in the order of the traversal, each with its full path, and
  the traversal as a loop over that list.
\<close>

fun filesOfEntry :: "string \<Rightarrow> entry \<Rightarrow> (string \<times> string \<times> buffer) list"
  and filesOf :: "string \<Rightarrow> entry list \<Rightarrow> (string \<times> string \<times> buffer) list" where
  "filesOfEntry dirPath (Dir name entries) = filesOf (join dirPath name) entries"
| "filesOfEntry dirPath (File name buf) = [(join dirPath name, name, buf)]"
| "filesOf dirPath [] = []"
| "filesOf dirPath (entry # entries) = filesOfEntry dirPath entry @ filesOf dirPath entries"

fun processFiles :: "(string \<times> string \<times> buffer) list \<Rightarrow> string list \<Rightarrow> abort + string list" where
  "processFiles [] errors = Inr errors"
| "processFiles ((fullPath, name, buf) # files) errors =
     (case (if name \<in> set allowList then Inr errors
            else processFile fullPath name buf errors) of
        Inl a \<Rightarrow> Inl a
      | Inr errors' \<Rightarrow> processFiles files errors')"

text \<open>Inputs used in the examples below.\<close>

definition jpeg_example :: buffer where
  "jpeg_example = [0xFF, 0xD8, 0xFF, 0xE0, 0x00, 0x04, 0x00, 0x00,
                   0xFF, 0xC0, 0x00, 0x11, 0x08, 0x04, 0x00, 0x04, 0x00]"


definition png_header :: buffer where
  "png_header = [0x89, 0x50, 0x4E, 0x47, 0x0D, 0x0A, 0x1A, 0x0A,
                 0x00, 0x00, 0x00, 0x0D, 0x49, 0x48, 0x44, 0x52,
                 0x00, 0x00, 0x04, 0x00, 0x00, 0x00, 0x04, 0x00]"

definition png_small :: buffer where
  "png_small = [0x89, 0x50, 0x4E, 0x47, 0x0D, 0x0A, 0x1A, 0x0A,
                0x00, 0x00, 0x00, 0x0D, 0x49, 0x48, 0x44, 0x52,
                0x00, 0x00, 0x00, 0x04, 0x00, 0x00, 0x00, 0x04]"

definition png_zero :: buffer where
  "png_zero = [0x89, 0x50, 0x4E, 0x47, 0x0D, 0x0A, 0x1A, 0x0A,
               0x00, 0x00, 0x00, 0x0D, 0x49, 0x48, 0x44, 0x52,
               0x00, 0x00, 0x00, 0x05, 0x00, 0x00, 0x00, 0x05,
               0x00, 0x00, 0x00, 0x00, 0x00, 0x00, 0x00, 0x00]"

definition png_fault :: buffer where
  "png_fault = [0x89, 0x50, 0x4E, 0x47, 0x0D, 0x0A, 0x1A, 0x0A,
                0x00, 0x00, 0x00, 0x0D, 0x49, 0x48, 0x44, 0x52,
                0x00, 0x00, 0x00, 0x05, 0x00, 0x00, 0x00, 0x07,
                0x00, 0x00, 0x00, 0x00, 0x00, 0x00, 0x00]"






definition assets_example :: "entry list" where
  "assets_example =
     [File ''.DS_Store'' [],
      Dir ''tokens'' [File ''a.jpg'' [], File ''notes.txt'' [], File ''b.png'' png_fault]]"








section \<open>Hexadecimal text and reads\<close>

lemma hexDigit_inj:
  assumes "n < 16" and "m < 16" and "hexDigit n = hexDigit m"
  shows "n = m"
proof -
  have "distinct ''0123456789abcdef''" by simp
  with assms show "n = m"
    unfolding hexDigit_def by (subst (asm) nth_eq_iff_index_eq) simp_all
qed

lemma hexByte_inj:
  assumes "hexByte a = hexByte b"
  shows "a = b"
proof -
  have la: "unat a < 256" and lb: "unat b < 256"
    using unsigned_less [of a, where ?'a = nat] unsigned_less [of b, where ?'a = nat]
    by simp_all
  from assms la lb have "unat a div 16 = unat b div 16" and "unat a mod 16 = unat b mod 16"
    by (auto simp: hexByte_def intro!: hexDigit_inj)
  then have "unat a = unat b"
    by (metis div_mult_mod_eq)
  then show "a = b" by (rule unsigned_word_eqI)
qed

lemma toHex_inj: "toHex xs = toHex ys \<Longrightarrow> xs = ys"
proof (induction xs arbitrary: ys)
  case Nil
  then show ?case by (cases ys) (simp_all add: toHex_def hexByte_def)
next
  case (Cons x xs)
  show ?case
  proof (cases ys)
    case Nil
    with Cons.prems show ?thesis by (simp add: toHex_def hexByte_def)
  next
    case (Cons y ys')
    with Cons.prems have "hexByte x @ toHex xs = hexByte y @ toHex ys'"
      by (simp add: toHex_def)
    then have "hexByte x = hexByte y" and "toHex xs = toHex ys'"
      by (simp_all add: hexByte_def)
    with Cons.IH Cons show ?thesis by (simp add: hexByte_inj)
  qed
qed

lemma toHex_PNG: "toHex PNG_SIGNATURE = ''89504e470d0a1a0a''"
  by (simp add: PNG_SIGNATURE_def toHex_def hexByte_def hexDigit_def)

lemma png_check_iff:
  "toHex (slice0 8 buf) = ''89504e470d0a1a0a'' \<longleftrightarrow> take 8 buf = PNG_SIGNATURE"
  using toHex_inj [of "take 8 buf" PNG_SIGNATURE] by (auto simp: toHex_PNG slice0_def)

lemma length_toHex: "length (toHex xs) = 2 * length xs"
  by (induction xs) (simp_all add: toHex_def hexByte_def)

text \<open>Hexadecimal text has no blank, so the test of line 34 fails on every buffer.\<close>

lemma jpg_check_never: "toHex (slice0 2 buf) \<noteq> ''ff d8''"
proof
  assume "toHex (slice0 2 buf) = ''ff d8''"
  then have "length (toHex (slice0 2 buf)) = 5" by simp
  then show False by (simp add: length_toHex) presburger
qed

lemma uint_rcat4:
  "uint (word_rcat [a, b, c, d :: byte] :: 32 word)
     = uint a * 2 ^ 24 + uint b * 2 ^ 16 + uint c * 2 ^ 8 + uint d"
proof -
  have b: "uint a < 256" "uint b < 256" "uint c < 256" "uint d < 256"
    using uint_bounded [of a] uint_bounded [of b] uint_bounded [of c] uint_bounded [of d]
    by simp_all
  have n: "0 \<le> uint a" "0 \<le> uint b" "0 \<le> uint c" "0 \<le> uint d"
    by simp_all
  have "uint (word_rcat [a, b, c, d] :: 32 word)
      = (uint d + 256 * (uint c + 256 * (uint b + 256 * uint a))) mod 2 ^ 32"
    by (simp only: word_rcat_def o_apply rev.simps append.simps horner_sum_simps
          uint_word_of_int len_of_numeral_defs) simp
  also have "\<dots> = uint d + 256 * (uint c + 256 * (uint b + 256 * uint a))"
    using b n by (intro mod_pos_pos_trivial) auto
  finally show ?thesis by simp
qed

lemma take4_drop:
  "off + 4 \<le> length buf \<Longrightarrow>
   take 4 (drop off buf) = [buf ! off, buf ! (off + 1), buf ! (off + 2), buf ! (off + 3)]"
  by (auto simp: list_eq_iff_nth_eq nth_Cons numeral_3_eq_3 split: nat.splits)

lemma readUInt32BE_in_range:
  assumes "off + 4 \<le> length buf"
  shows "readUInt32BE buf (int off) = Inr (be32 buf off)"
proof -
  have "nat (int off + 1) = off + 1" "nat (int off + 2) = off + 2" "nat (int off + 3) = off + 3"
    by simp_all
  with assms show ?thesis
    by (simp add: readUInt32BE_def byteAt_def be32_def take4_drop uint_rcat4)
qed

lemma readUInt32BE_out_of_range:
  assumes "4 \<le> length buf" and "off < 0 \<or> int (length buf) < off + 4"
  shows "readUInt32BE buf off = Inl ERR_OUT_OF_RANGE"
  using assms by (auto simp: readUInt32BE_def byteAt_def boundsError_def)

lemma png_signature_length:
  assumes "take 8 buf = PNG_SIGNATURE"
  shows "8 \<le> length buf"
proof -
  from assms have "length (take 8 buf) = 8"
    by (simp add: PNG_SIGNATURE_def)
  then show ?thesis by simp
qed

lemma png_ok:
  assumes "take 8 buf = PNG_SIGNATURE" and "24 \<le> length buf"
  shows "getImageDimensions buf = Inr (Some \<lparr>width = be32 buf 16, height = be32 buf 20\<rparr>)"
  using assms readUInt32BE_in_range [of 16 buf] readUInt32BE_in_range [of 20 buf]
  by (simp add: getImageDimensions_def png_check_iff)

lemma png_short:
  assumes "take 8 buf = PNG_SIGNATURE" and "length buf < 24"
  shows "getImageDimensions buf = Inl ERR_OUT_OF_RANGE"
proof -
  note len = png_signature_length [OF assms(1)]
  show ?thesis
  proof (cases "length buf < 20")
    case True
    with len have "readUInt32BE buf 16 = Inl ERR_OUT_OF_RANGE"
      by (intro readUInt32BE_out_of_range) auto
    with assms show ?thesis by (simp add: getImageDimensions_def png_check_iff)
  next
    case False
    then have "readUInt32BE buf (int 16) = Inr (be32 buf 16)"
      by (intro readUInt32BE_in_range) simp
    moreover from assms(2) len have "readUInt32BE buf 20 = Inl ERR_OUT_OF_RANGE"
      by (intro readUInt32BE_out_of_range) auto
    ultimately show ?thesis using assms by (simp add: getImageDimensions_def png_check_iff)
  qed
qed

lemma not_png_null:
  assumes "take 8 buf \<noteq> PNG_SIGNATURE"
  shows "getImageDimensions buf = Inr None"
  using assms by (simp add: getImageDimensions_def png_check_iff jpg_check_never)

lemma be32_png_header: "be32 png_header 16 = 1024" "be32 png_header 20 = 1024"
  by (simp_all add: be32_def png_header_def uint_rcat4)

section \<open>Claims about the dimension reader\<close>

text \<open>
  C1. A buffer that starts with the PNG signature and holds the 24 bytes up to the end
  of the IHDR height is read as the big-endian unsigned 32-bit integers at offsets 16
  (width) and 20 (height), whatever their values.
\<close>

theorem png_dimensions:
  assumes "take 8 buf = PNG_SIGNATURE" and "24 \<le> length buf"
  shows "getImageDimensions buf = Inr (Some \<lparr>width = be32 buf 16, height = be32 buf 20\<rparr>)"
  using assms by (rule png_ok)

theorem png_dimensions_witness:
  "take 8 png_header = PNG_SIGNATURE \<and> 24 \<le> length png_header
   \<and> getImageDimensions png_header = Inr (Some \<lparr>width = 1024, height = 1024\<rparr>)"
proof -
  have sig: "take 8 png_header = PNG_SIGNATURE"
    by (simp add: png_header_def PNG_SIGNATURE_def)
  have len: "24 \<le> length png_header"
    by (simp add: png_header_def)
  show ?thesis
    using sig len png_dimensions [OF sig len] by (simp add: be32_png_header)
qed

text \<open>
  C2. A JPEG buffer: \<open>FF D8\<close>, an APP0 segment, then a start-of-frame marker \<open>FF C0\<close>
  with height 1024 and width 1024. The segment scan started at offset 2 finds these
  dimensions, but the reader never starts it: the signature is compared with the text
  \<open>ff d8\<close>, and the hexadecimal text of two bytes is \<open>ffd8\<close>. The reader returns null.
\<close>

theorem jpeg_dimensions_not_read:
  "take 2 jpeg_example = JPEG_SOI
   \<and> scanSegments jpeg_example 2 = Inr (Some \<lparr>width = 1024, height = 1024\<rparr>)
   \<and> getImageDimensions jpeg_example = Inr None"
  by (simp add: scanSegments.simps [of _ 2] scanSegments.simps [of _ 8] jpeg_example_def
      JPEG_SOI_def readUInt16BE_def byteAt_def getImageDimensions_def toHex_def slice0_def
      hexByte_def hexDigit_def)

text \<open>
  C3, as stated, fails: the reader throws on a buffer that is the PNG signature alone.
\<close>

theorem reader_raises_counterexample:
  "getImageDimensions [0x89, 0x50, 0x4E, 0x47, 0x0D, 0x0A, 0x1A, 0x0A] = Inl ERR_OUT_OF_RANGE"
  by (simp add: getImageDimensions_def toHex_def slice0_def hexByte_def hexDigit_def
      readUInt32BE_def byteAt_def boundsError_def)

text \<open>
  C3, amended. A buffer that matches neither the PNG signature nor \<open>FF D8\<close> gives null.
  A buffer that starts with the PNG signature throws a range error when it is shorter
  than 24 bytes and returns dimensions otherwise.
\<close>

theorem reader_null_or_range_error:
  "(take 8 buf \<noteq> PNG_SIGNATURE \<and> take 2 buf \<noteq> JPEG_SOI \<longrightarrow> getImageDimensions buf = Inr None)
   \<and> (take 8 buf = PNG_SIGNATURE \<longrightarrow>
        (if length buf < 24 then getImageDimensions buf = Inl ERR_OUT_OF_RANGE
         else \<exists>d. getImageDimensions buf = Inr (Some d)))"
  by (auto simp: not_png_null png_short png_ok)

theorem reader_null_or_range_error_witness:
  "take 8 [0x00 :: byte, 0x01] \<noteq> PNG_SIGNATURE \<and> take 2 [0x00 :: byte, 0x01] \<noteq> JPEG_SOI
   \<and> getImageDimensions [0x00, 0x01] = Inr None
   \<and> take 8 png_header = PNG_SIGNATURE \<and> \<not> length png_header < 24
   \<and> (\<exists>d. getImageDimensions png_header = Inr (Some d))
   \<and> take 8 (take 10 png_header) = PNG_SIGNATURE \<and> length (take 10 png_header) < 24
   \<and> getImageDimensions (take 10 png_header) = Inl ERR_OUT_OF_RANGE"
  using reader_null_or_range_error [of "[0x00, 0x01]"] reader_null_or_range_error [of png_header]
    reader_null_or_range_error [of "take 10 png_header"]
  by (simp add: png_header_def PNG_SIGNATURE_def JPEG_SOI_def)

section \<open>The rules applied to one file\<close>

lemma dims_read:
  assumes "getImageDimensions buf = Inr (Some d)"
  shows "take 8 buf = PNG_SIGNATURE" and "24 \<le> length buf"
    and "d = \<lparr>width = be32 buf 16, height = be32 buf 20\<rparr>"
proof -
  show sig: "take 8 buf = PNG_SIGNATURE"
    using assms not_png_null [of buf] by auto
  show len: "24 \<le> length buf"
    using assms png_short [OF sig] by (cases "length buf < 24") auto
  show "d = \<lparr>width = be32 buf 16, height = be32 buf 20\<rparr>"
    using assms png_ok [OF sig len] by simp
qed

lemma be32_range: "0 \<le> be32 buf off" "be32 buf off < 2 ^ 32"
  using uint_bounded [of "word_rcat (take 4 (drop off buf)) :: 32 word"]
  by (simp_all add: be32_def)

lemma dims_range:
  assumes "getImageDimensions buf = Inr (Some d)"
  shows "0 \<le> width d" "width d < 2 ^ 32" "0 \<le> height d" "height d < 2 ^ 32"
  using dims_read(3) [OF assms] be32_range [of buf 16] be32_range [of buf 20] by simp_all

lemma validateFileName_append:
  "validateFileName rel ext errors = errors @ validateFileName rel ext []"
  by (simp add: validateFileName_def)

lemma validateDimensions_append:
  "validateDimensions rel dims errors = errors @ validateDimensions rel dims []"
  by (simp add: validateDimensions_def)

lemma validateTransparency_append:
  "validateTransparency rel ext buf dims errors =
     (case validateTransparency rel ext buf dims [] of
        Inl e \<Rightarrow> Inl e
      | Inr t \<Rightarrow> Inr (errors @ t))"
  by (simp add: validateTransparency_def split: option.splits sum.splits)

lemma validateTransparency_cases:
  assumes "validateTransparency rel ext buf dims [] = Inr t"
  shows "t = [] \<or> t = [transparencyError rel]"
  using assms by (auto simp: validateTransparency_def split: option.splits sum.splits if_splits)

lemma processFile_Inr:
  assumes "toLowerCase (extname name) \<in> {''.png'', ''.jpg'', ''.jpeg''}"
      and "getImageDimensions buf = Inr dims"
      and "processFile fullPath name buf errors = Inr errors'"
  shows "\<exists>t. validateTransparency (relative FOLDER_PATH fullPath) (toLowerCase (extname name)) buf dims [] = Inr t
           \<and> drop (length errors) errors' =
               validateFileName (relative FOLDER_PATH fullPath) (toLowerCase (extname name)) []
               @ validateDimensions (relative FOLDER_PATH fullPath) dims [] @ t"
proof -
  let ?rel = "relative FOLDER_PATH fullPath" and ?ext = "toLowerCase (extname name)"
  obtain t where t: "validateTransparency ?rel ?ext buf dims [] = Inr t"
    and e: "errors' = validateDimensions ?rel dims (validateFileName ?rel ?ext errors) @ t"
    using assms
    by (auto simp: processFile_def Let_def validateTransparency_append [of _ _ _ _ "validateDimensions _ _ _"]
        split: sum.splits if_splits)
  from e have "errors' = errors @ validateFileName ?rel ?ext [] @ validateDimensions ?rel dims [] @ t"
    by (metis validateDimensions_append validateFileName_append append.assoc)
  with t show ?thesis by simp
qed

lemma messages_distinct:
  "tokenNameError rel \<noteq> dimensionError rel dims"
  "validatorNameError rel \<noteq> dimensionError rel dims"
  "transparencyError rel \<noteq> dimensionError rel dims"
  "tokenNameError rel \<noteq> transparencyError rel"
  "validatorNameError rel \<noteq> transparencyError rel"
  "tokenNameError rel \<noteq> validatorNameError rel"
  by (simp_all add: tokenNameError_def validatorNameError_def dimensionError_def
      transparencyError_def)

lemma readUInt32BE_int:
  assumes "0 \<le> k" and "k \<le> int (length buf) - 4"
  shows "readUInt32BE buf k = Inr (be32 buf (nat k))"
  using assms readUInt32BE_in_range [of "nat k" buf] by simp

lemma fl_exact: "\<bar>k\<bar> \<le> 2 ^ 53 \<Longrightarrow> fl k = k"
  by (simp add: fl_def)

text \<open>Beyond \<open>2 ^ 53\<close> the product is rounded, as in \<open>4294967295 * 4294967295\<close>.\<close>

lemma fl_rounds:
  "fl (2 ^ 53 + 1) = 2 ^ 53" "fl (2 ^ 53 + 3) = 2 ^ 53 + 4"
  "fl (4294967295 * 4294967295) = 18446744065119617024"
  by (simp_all add: fl_def Let_def)

lemma js_rem_nonneg: "0 \<le> a \<Longrightarrow> 0 \<le> b \<Longrightarrow> js_rem a b = a mod b"
  by (cases "a = 0") (simp_all add: js_rem_def)

lemma processFile_png:
  assumes "toLowerCase (extname name) = ''.png''"
      and "getImageDimensions buf = Inr dims"
  shows "processFile fullPath name buf errors =
           (case validateTransparency (relative FOLDER_PATH fullPath) ''.png'' buf dims [] of
              Inl e \<Rightarrow> Inl (Throw e)
            | Inr t \<Rightarrow>
                Inr (errors @ validateFileName (relative FOLDER_PATH fullPath) ''.png'' []
                     @ validateDimensions (relative FOLDER_PATH fullPath) dims [] @ t))"
proof -
  let ?rel = "relative FOLDER_PATH fullPath"
  have "validateDimensions ?rel dims (validateFileName ?rel ''.png'' errors)
          = errors @ validateFileName ?rel ''.png'' [] @ validateDimensions ?rel dims []"
    by (metis validateDimensions_append validateFileName_append append.assoc)
  with assms show ?thesis
    by (simp add: processFile_def Let_def
        validateTransparency_append [of _ _ _ _ "validateDimensions _ _ _"]
        split: sum.splits)
qed

lemma ext_icon: "toLowerCase (extname ''icon.png'') = ''.png''"
  by (simp add: extname_def toLowerCase_def toLowerChar_def)

lemma dims_png_header:
  "getImageDimensions png_header = Inr (Some \<lparr>width = 1024, height = 1024\<rparr>)"
  using png_ok [of png_header] be32_png_header
  by (simp add: png_header_def PNG_SIGNATURE_def)

lemma dims_png_small: "getImageDimensions png_small = Inr (Some \<lparr>width = 4, height = 4\<rparr>)"
proof -
  have "be32 png_small 16 = 4" "be32 png_small 20 = 4"
    by (simp_all add: be32_def png_small_def uint_rcat4)
  then show ?thesis
    using png_ok [of png_small] by (simp add: png_small_def PNG_SIGNATURE_def)
qed

lemma dims_png_zero: "getImageDimensions png_zero = Inr (Some \<lparr>width = 5, height = 5\<rparr>)"
proof -
  have "be32 png_zero 16 = 5" "be32 png_zero 20 = 5"
    by (simp_all add: be32_def png_zero_def uint_rcat4)
  then show ?thesis
    using png_ok [of png_zero] by (simp add: png_zero_def PNG_SIGNATURE_def)
qed

lemma dims_png_fault: "getImageDimensions png_fault = Inr (Some \<lparr>width = 5, height = 7\<rparr>)"
proof -
  have "be32 png_fault 16 = 5" "be32 png_fault 20 = 7"
    by (simp_all add: be32_def png_fault_def uint_rcat4)
  then show ?thesis
    using png_ok [of png_fault] by (simp add: png_fault_def PNG_SIGNATURE_def)
qed

section \<open>Claims about the asset validator's rules\<close>

text \<open>
  C4. For an image file that the validator processes to the end, the dimension error of
  that file is among the errors it adds exactly when the reader returned null, or the
  width is below 1024, or the height is below 1024, or the two differ. The rule lets
  1024 by 1024 pass and reports 1023 by 1024 and 2048 by 1024.
\<close>

theorem dimension_rule:
  assumes "toLowerCase (extname name) \<in> {''.png'', ''.jpg'', ''.jpeg''}"
      and "getImageDimensions buf = Inr dims"
      and "processFile fullPath name buf errors = Inr errors'"
  shows "(dimensionError (relative FOLDER_PATH fullPath) dims \<in> set (drop (length errors) errors')
          \<longleftrightarrow> (case dims of
                 None \<Rightarrow> True
               | Some d \<Rightarrow> width d < 1024 \<or> height d < 1024 \<or> width d \<noteq> height d))
     \<and> validateDimensions rel (Some \<lparr>width = 1024, height = 1024\<rparr>) es = es
     \<and> validateDimensions rel (Some \<lparr>width = 1023, height = 1024\<rparr>) es
         = es @ [dimensionError rel (Some \<lparr>width = 1023, height = 1024\<rparr>)]
     \<and> validateDimensions rel (Some \<lparr>width = 2048, height = 1024\<rparr>) es
         = es @ [dimensionError rel (Some \<lparr>width = 2048, height = 1024\<rparr>)]"
proof -
  let ?rel = "relative FOLDER_PATH fullPath" and ?ext = "toLowerCase (extname name)"
  from processFile_Inr [OF assms] obtain t
    where t: "validateTransparency ?rel ?ext buf dims [] = Inr t"
      and new: "drop (length errors) errors'
                  = validateFileName ?rel ?ext [] @ validateDimensions ?rel dims [] @ t"
    by blast
  have "dimensionError ?rel dims \<notin> set (validateFileName ?rel ?ext [])"
    by (auto simp: validateFileName_def messages_distinct messages_distinct [symmetric])
  moreover have "dimensionError ?rel dims \<notin> set t"
    using validateTransparency_cases [OF t] by (auto simp: messages_distinct messages_distinct [symmetric])
  ultimately have "dimensionError ?rel dims \<in> set (drop (length errors) errors')
      \<longleftrightarrow> dimensionError ?rel dims \<in> set (validateDimensions ?rel dims [])"
    by (simp add: new)
  then show ?thesis
    by (simp add: validateDimensions_def)
qed


theorem dimension_rule_witness:
  "toLowerCase (extname ''icon.png'') \<in> {''.png'', ''.jpg'', ''.jpeg''}
   \<and> getImageDimensions png_small = Inr (Some \<lparr>width = 4, height = 4\<rparr>)
   \<and> processFile ''src/assets/icon.png'' ''icon.png'' png_small []
       = Inr [dimensionError ''icon.png'' (Some \<lparr>width = 4, height = 4\<rparr>)]
   \<and> dimensionError (relative FOLDER_PATH ''src/assets/icon.png'')
         (Some \<lparr>width = 4, height = 4\<rparr>)
       \<in> set (drop (length ([] :: string list))
                [dimensionError ''icon.png'' (Some \<lparr>width = 4, height = 4\<rparr>)])"
proof -
  have e: "toLowerCase (extname ''icon.png'') \<in> {''.png'', ''.jpg'', ''.jpeg''}"
    by (simp add: ext_icon)
  have p: "processFile ''src/assets/icon.png'' ''icon.png'' png_small []
             = Inr [dimensionError ''icon.png'' (Some \<lparr>width = 4, height = 4\<rparr>)]"
    unfolding processFile_png [OF ext_icon dims_png_small]
    by (simp add: validateFileName_def validateDimensions_def validateTransparency_def
        relative_def FOLDER_PATH_def readUInt32BE_def byteAt_def js_rem_def fl_def
        png_small_def)
  show ?thesis
    using e dims_png_small p dimension_rule [OF e dims_png_small p] by simp
qed

text \<open>
  C6, as stated, fails: the dimensions of this 24-byte \<open>.png\<close> file are read as 1024 by
  1024, and the second read, at offset 1023, throws; no error is added.
\<close>

theorem transparency_counterexample:
  "getImageDimensions png_header = Inr (Some \<lparr>width = 1024, height = 1024\<rparr>)
   \<and> processFile ''src/assets/icon.png'' ''icon.png'' png_header [] = Inl (Throw ERR_OUT_OF_RANGE)"
proof -
  have "processFile ''src/assets/icon.png'' ''icon.png'' png_header []
          = Inl (Throw ERR_OUT_OF_RANGE)"
    unfolding processFile_png [OF ext_icon dims_png_header]
    by (simp add: validateTransparency_def readUInt32BE_def byteAt_def boundsError_def
        png_header_def)
  with dims_png_header show ?thesis by simp
qed

text \<open>
  C6, amended. For a \<open>.png\<close> file whose dimensions were read, with width and height at
  least 1, the offsets \<open>width - 1\<close> and \<open>(width * (height - 1)) mod bufferLength\<close> at most
  \<open>bufferLength - 4\<close>, and \<open>width * height\<close> at most \<open>2 ^ 53\<close>, the validator reads the
  four big-endian 32-bit words at offsets 0, \<open>width - 1\<close>,
  \<open>(width * (height - 1)) mod bufferLength\<close> and \<open>min (width * height - 1) (bufferLength - 4)\<close>
  and adds the transparency error exactly when one of them is zero.
\<close>

theorem transparency_rule:
  assumes "toLowerCase (extname name) = ''.png''"
      and "getImageDimensions buf = Inr (Some d)"
      and "1 \<le> width d" and "width d - 1 \<le> int (length buf) - 4"
      and "1 \<le> height d"
      and "(width d * (height d - 1)) mod int (length buf) \<le> int (length buf) - 4"
      and "width d * height d \<le> 2 ^ 53"
  shows "\<exists>errors'. processFile fullPath name buf errors = Inr errors'
           \<and> (transparencyError (relative FOLDER_PATH fullPath) \<in> set (drop (length errors) errors')
                \<longleftrightarrow> be32 buf 0 = 0
                    \<or> be32 buf (nat (width d - 1)) = 0
                    \<or> be32 buf (nat ((width d * (height d - 1)) mod int (length buf))) = 0
                    \<or> be32 buf (nat (min (width d * height d - 1) (int (length buf) - 4))) = 0)"
proof -
  let ?rel = "relative FOLDER_PATH fullPath"
  let ?w = "width d" and ?h = "height d" and ?n = "int (length buf)"
  let ?zero = "be32 buf 0 = 0 \<or> be32 buf (nat (?w - 1)) = 0
      \<or> be32 buf (nat ((?w * (?h - 1)) mod ?n)) = 0
      \<or> be32 buf (nat (min (?w * ?h - 1) (?n - 4))) = 0"
  note len = dims_read(2) [OF assms(2)]
  have r1: "readUInt32BE buf 0 = Inr (be32 buf 0)"
    using len readUInt32BE_in_range [of 0 buf] by simp
  have r2: "readUInt32BE buf (?w - 1) = Inr (be32 buf (nat (?w - 1)))"
    using assms(3,4) by (intro readUInt32BE_int) simp_all
  have p1: "0 \<le> ?w * (?h - 1)"
    using assms(3,5) by simp
  have "?w * (?h - 1) \<le> ?w * ?h"
    using assms(3) by (intro mult_left_mono) simp_all
  with p1 assms(7) have f1: "fl (?w * (?h - 1)) = ?w * (?h - 1)"
    by (intro fl_exact) simp
  have p2: "1 \<le> ?w * ?h"
    using assms(3,5) by (metis mult_mono' mult_1 zero_le_one)
  with assms(7) have f2: "fl (fl (?w * ?h) - 1) = ?w * ?h - 1"
    by (simp add: fl_exact)
  have o3: "js_rem (fl (?w * (?h - 1))) ?n = (?w * (?h - 1)) mod ?n"
    using p1 by (simp add: f1 js_rem_nonneg)
  have r3: "readUInt32BE buf (js_rem (fl (?w * (?h - 1))) ?n)
              = Inr (be32 buf (nat ((?w * (?h - 1)) mod ?n)))"
  proof -
    from len have "0 < ?n" by auto
    then have "0 \<le> (?w * (?h - 1)) mod ?n" by simp
    with assms(6) show ?thesis
      unfolding o3 by (intro readUInt32BE_int)
  qed
  have r4: "readUInt32BE buf (min (fl (fl (?w * ?h) - 1)) (?n - 4))
              = Inr (be32 buf (nat (min (?w * ?h - 1) (?n - 4))))"
    unfolding f2 using p2 len by (intro readUInt32BE_int) simp_all
  have t: "validateTransparency ?rel ''.png'' buf (Some d) []
             = Inr (if ?zero then [transparencyError ?rel] else [])"
    by (simp add: validateTransparency_def r1 r2 r3 r4)
  have "transparencyError ?rel \<notin> set (validateFileName ?rel ''.png'' [])"
    by (auto simp: validateFileName_def messages_distinct messages_distinct [symmetric])
  moreover have "transparencyError ?rel \<notin> set (validateDimensions ?rel (Some d) [])"
    by (auto simp: validateDimensions_def messages_distinct messages_distinct [symmetric])
  ultimately show ?thesis
    by (simp add: processFile_png [OF assms(1,2)] t)
qed

theorem transparency_rule_witness:
  "toLowerCase (extname ''icon.png'') = ''.png''
   \<and> getImageDimensions png_zero = Inr (Some \<lparr>width = 5, height = 5\<rparr>)
   \<and> (5 :: int) - 1 \<le> int (length png_zero) - 4
   \<and> ((5 :: int) * (5 - 1)) mod int (length png_zero) \<le> int (length png_zero) - 4
   \<and> be32 png_zero 24 = 0
   \<and> (\<exists>errors'. processFile ''src/assets/icon.png'' ''icon.png'' png_zero [] = Inr errors'
          \<and> transparencyError ''icon.png'' \<in> set errors')"
proof -
  let ?d = "\<lparr>width = 5, height = 5\<rparr>"
  have z: "be32 png_zero 24 = 0"
    by (simp add: be32_def png_zero_def uint_rcat4)
  have l: "length png_zero = 32"
    by (simp add: png_zero_def)
  have "\<exists>errors'. processFile ''src/assets/icon.png'' ''icon.png'' png_zero [] = Inr errors'
          \<and> (transparencyError (relative FOLDER_PATH ''src/assets/icon.png'')
                 \<in> set (drop (length ([] :: string list)) errors')
               \<longleftrightarrow> be32 png_zero 0 = 0
                   \<or> be32 png_zero (nat (width ?d - 1)) = 0
                   \<or> be32 png_zero (nat ((width ?d * (height ?d - 1)) mod int (length png_zero))) = 0
                   \<or> be32 png_zero
                        (nat (min (width ?d * height ?d - 1) (int (length png_zero) - 4))) = 0)"
    by (rule transparency_rule [OF ext_icon dims_png_zero]) (simp_all add: l)
  then show ?thesis
    using z by (simp add: ext_icon dims_png_zero l relative_def FOLDER_PATH_def)
qed

text \<open>
  C10. A \<open>.png\<close> file that starts with the PNG signature and whose dimensions are read
  makes the validator throw a range error, instead of adding an error, when
  \<open>width - 1\<close> exceeds \<open>bufferLength - 4\<close>, or (for \<open>width * height\<close> at most \<open>2 ^ 53\<close>)
  when \<open>(width * (height - 1)) mod bufferLength\<close> does. Such files exist, for instance
  a 31-byte file that declares 5 by 7.
\<close>

theorem transparency_read_faults:
  assumes "toLowerCase (extname name) = ''.png''" and "name \<notin> set allowList"
      and "getImageDimensions buf = Inr (Some d)"
      and "int (length buf) - 4 < width d - 1
           \<or> (width d * height d \<le> 2 ^ 53
               \<and> int (length buf) - 4 < (width d * (height d - 1)) mod int (length buf))"
  shows "processFile fullPath name buf errors = Inl (Throw ERR_OUT_OF_RANGE)
         \<and> validateAssetsImages [File name buf] = Inl (Throw ERR_OUT_OF_RANGE)"
proof -
  let ?w = "width d" and ?h = "height d" and ?n = "int (length buf)"
  note len = dims_read(2) [OF assms(3)]
  note rng = dims_range [OF assms(3)]
  have r1: "readUInt32BE buf 0 = Inr (be32 buf 0)"
    using len readUInt32BE_in_range [of 0 buf] by simp
  have t: "validateTransparency rel ''.png'' buf (Some d) [] = Inl ERR_OUT_OF_RANGE" for rel
  proof (cases "?w - 1 < 0 \<or> ?n - 4 < ?w - 1")
    case True
    with len have "readUInt32BE buf (?w - 1) = Inl ERR_OUT_OF_RANGE"
      by (intro readUInt32BE_out_of_range) auto
    then show ?thesis by (simp add: validateTransparency_def r1)
  next
    case False
    then have w: "1 \<le> ?w" "?w - 1 \<le> ?n - 4" by simp_all
    then have r2: "readUInt32BE buf (?w - 1) = Inr (be32 buf (nat (?w - 1)))"
      by (intro readUInt32BE_int) simp_all
    from False assms(4) have prod: "?w * ?h \<le> 2 ^ 53"
      and big: "?n - 4 < (?w * (?h - 1)) mod ?n" by auto
    have "js_rem (fl (?w * (?h - 1))) ?n < 0 \<or> ?n < js_rem (fl (?w * (?h - 1))) ?n + 4"
    proof (cases "?h = 0")
      case True
      have "fl (- ?w) = - ?w"
        using rng by (intro fl_exact) simp
      moreover have "js_rem (- ?w) ?n = - ?w"
        using w len by (simp add: js_rem_def)
      ultimately show ?thesis using True w by simp
    next
      case False
      with rng have h: "1 \<le> ?h" by simp
      have p1: "0 \<le> ?w * (?h - 1)"
        using w h by simp
      have "?w * (?h - 1) \<le> ?w * ?h"
        using w by (intro mult_left_mono) simp_all
      with p1 prod have "fl (?w * (?h - 1)) = ?w * (?h - 1)"
        by (intro fl_exact) simp
      with p1 have "js_rem (fl (?w * (?h - 1))) ?n = (?w * (?h - 1)) mod ?n"
        by (simp add: js_rem_nonneg)
      with big show ?thesis by simp
    qed
    with len have "readUInt32BE buf (js_rem (fl (?w * (?h - 1))) ?n) = Inl ERR_OUT_OF_RANGE"
      by (intro readUInt32BE_out_of_range) auto
    then show ?thesis by (simp add: validateTransparency_def r1 r2)
  qed
  have p: "processFile fullPath name buf errors = Inl (Throw ERR_OUT_OF_RANGE)" for fullPath errors
    by (simp add: processFile_png [OF assms(1,3)] t)
  then show ?thesis
    using assms(2) by (simp add: validateAssetsImages_def)
qed

theorem transparency_read_faults_witness:
  "toLowerCase (extname ''icon.png'') = ''.png'' \<and> ''icon.png'' \<notin> set allowList
   \<and> take 8 png_fault = PNG_SIGNATURE
   \<and> getImageDimensions png_fault = Inr (Some \<lparr>width = 5, height = 7\<rparr>)
   \<and> int (length png_fault) - 4 < ((5 :: int) * (7 - 1)) mod int (length png_fault)
   \<and> processFile ''src/assets/icon.png'' ''icon.png'' png_fault [] = Inl (Throw ERR_OUT_OF_RANGE)
   \<and> validateAssetsImages [File ''icon.png'' png_fault] = Inl (Throw ERR_OUT_OF_RANGE)"
proof -
  have a: "''icon.png'' \<notin> set allowList"
    by (simp add: allowList_def)
  have l: "length png_fault = 31"
    by (simp add: png_fault_def)
  have h: "int (length png_fault) - 4 < width \<lparr>width = 5, height = 7\<rparr> - 1
           \<or> (width \<lparr>width = 5, height = 7\<rparr> * height \<lparr>width = 5, height = 7\<rparr> \<le> 2 ^ 53
               \<and> int (length png_fault) - 4
                   < (width \<lparr>width = 5, height = 7\<rparr> * (height \<lparr>width = 5, height = 7\<rparr> - 1))
                       mod int (length png_fault))"
    by (simp add: l)
  have s: "take 8 png_fault = PNG_SIGNATURE"
    by (simp add: png_fault_def PNG_SIGNATURE_def)
  show ?thesis
    using a s transparency_read_faults [OF ext_icon a dims_png_fault h]
    by (simp add: ext_icon dims_png_fault l)
qed

lemma getImageDimensions_Nil: "getImageDimensions [] = Inr None"
  by (simp add: getImageDimensions_def slice0_def toHex_def)

lemma processFile_jpg_empty:
  assumes "toLowerCase (extname name) = ''.jpg'' \<or> toLowerCase (extname name) = ''.jpeg''"
  shows "processFile fullPath name [] errors =
           Inr (validateDimensions (relative FOLDER_PATH fullPath) None
                  (validateFileName (relative FOLDER_PATH fullPath)
                     (toLowerCase (extname name)) errors))"
  using assms
  by (auto simp: processFile_def Let_def getImageDimensions_Nil validateTransparency_def)

text \<open>
  C5. The file \<open>tokens/0x6969696969696969696969696969696969696969.PNG\<close> is an image file
  for the validator, since its lower-cased extension is \<open>.png\<close>, and its base name,
  without the extension and the \<open>tokens/\<close> prefix, is \<open>0x\<close> followed by 40 hexadecimal
  digits. The validator adds the naming error all the same: line 88 removes the
  lower-cased extension from the path, where the text \<open>.PNG\<close> stays. The same file
  with the extension \<open>.png\<close> gets no naming error.
\<close>

theorem uppercase_extension_named_invalid:
  "tokenRegex (spec_baseName ''tokens/'' ''0x6969696969696969696969696969696969696969.PNG'' ''tokens/0x6969696969696969696969696969696969696969.PNG'')
   \<and> processFile ''src/assets/tokens/0x6969696969696969696969696969696969696969.PNG'' ''0x6969696969696969696969696969696969696969.PNG'' png_small []
       = Inr [tokenNameError ''tokens/0x6969696969696969696969696969696969696969.PNG'',
              dimensionError ''tokens/0x6969696969696969696969696969696969696969.PNG'' (Some \<lparr>width = 4, height = 4\<rparr>)]
   \<and> processFile ''src/assets/tokens/0x6969696969696969696969696969696969696969.png'' ''0x6969696969696969696969696969696969696969.png'' png_small []
       = Inr [dimensionError ''tokens/0x6969696969696969696969696969696969696969.png'' (Some \<lparr>width = 4, height = 4\<rparr>)]"
proof -
  have e: "toLowerCase (extname ''0x6969696969696969696969696969696969696969.PNG'') = ''.png''"
    by (simp add: extname_def toLowerCase_def toLowerChar_def)
  have e': "toLowerCase (extname ''0x6969696969696969696969696969696969696969.png'') = ''.png''"
    by (simp add: extname_def toLowerCase_def toLowerChar_def)
  have b: "tokenRegex (spec_baseName ''tokens/'' ''0x6969696969696969696969696969696969696969.PNG'' ''tokens/0x6969696969696969696969696969696969696969.PNG'')"
    by (simp add: spec_baseName_def extname_def tokenRegex_def hexAddress_def isHexDigit_def)
  have t: "validateTransparency rel ''.png'' png_small (Some \<lparr>width = 4, height = 4\<rparr>) []
             = Inr []" for rel
    by (simp add: validateTransparency_def readUInt32BE_def byteAt_def js_rem_def fl_def
        png_small_def)
  have n: "validateFileName ''tokens/0x6969696969696969696969696969696969696969.PNG'' ''.png'' []
             = [tokenNameError ''tokens/0x6969696969696969696969696969696969696969.PNG'']"
    by (simp add: validateFileName_def tokenRegex_def hexAddress_def isHexDigit_def)
  have n': "validateFileName ''tokens/0x6969696969696969696969696969696969696969.png'' ''.png'' [] = []"
    by (simp add: validateFileName_def tokenRegex_def hexAddress_def isHexDigit_def)
  have p: "processFile ''src/assets/tokens/0x6969696969696969696969696969696969696969.PNG'' ''0x6969696969696969696969696969696969696969.PNG'' png_small []
       = Inr [tokenNameError ''tokens/0x6969696969696969696969696969696969696969.PNG'',
              dimensionError ''tokens/0x6969696969696969696969696969696969696969.PNG'' (Some \<lparr>width = 4, height = 4\<rparr>)]"
    unfolding processFile_png [OF e dims_png_small]
    by (simp add: t relative_def FOLDER_PATH_def n validateDimensions_def)
  have p': "processFile ''src/assets/tokens/0x6969696969696969696969696969696969696969.png'' ''0x6969696969696969696969696969696969696969.png'' png_small []
       = Inr [dimensionError ''tokens/0x6969696969696969696969696969696969696969.png'' (Some \<lparr>width = 4, height = 4\<rparr>)]"
    unfolding processFile_png [OF e' dims_png_small]
    by (simp add: t relative_def FOLDER_PATH_def n' validateDimensions_def)
  from b p p' show ?thesis by simp
qed

section \<open>Claims about the traversal\<close>

lemma processFiles_append:
  "processFiles (xs @ ys) errors =
     (case processFiles xs errors of Inl a \<Rightarrow> Inl a | Inr errors' \<Rightarrow> processFiles ys errors')"
  by (induction xs arbitrary: errors) (auto split: sum.splits)

lemma traversal_as_loop:
  "processEntry dirPath entry errors = processFiles (filesOfEntry dirPath entry) errors"
  "processDirectory dirPath entries errors = processFiles (filesOf dirPath entries) errors"
  by (induction dirPath entry errors and dirPath entries errors
      rule: processEntry_processDirectory.induct)
    (auto simp: processFiles_append split: sum.splits)

text \<open>
  C7. When the traversal reaches a file that is not on the allow list and whose
  lower-cased extension is none of \<open>.png\<close>, \<open>.jpg\<close> and \<open>.jpeg\<close>, every file before it
  having been processed without an exception, the process exits with status 1 at once:
  the files after it are not visited and the errors collected so far are not printed.
  A file named \<open>.DS_Store\<close> or \<open>validator-default.png\<close> is skipped and changes nothing.
\<close>

theorem unsupported_file_exits:
  assumes "filesOf FOLDER_PATH assets = before @ (fullPath, name, buf) # rest"
      and "processFiles before [] = Inr errors"
      and "name \<notin> set allowList"
      and "toLowerCase (extname name) \<notin> {''.png'', ''.jpg'', ''.jpeg''}"
  shows "validateAssetsImages assets = Inl (Exit [fullPath @ '': Unsupported file type!''] 1)
         \<and> processEntry dirPath (File ''.DS_Store'' b) es = Inr es
         \<and> processEntry dirPath (File ''validator-default.png'' b) es = Inr es"
proof -
  have "processFile fullPath name buf errors
          = Inl (Exit [fullPath @ '': Unsupported file type!''] 1)"
    using assms(4) by (simp add: processFile_def Let_def)
  with assms(2,3) have "processFiles (before @ (fullPath, name, buf) # rest) []
      = Inl (Exit [fullPath @ '': Unsupported file type!''] 1)"
    by (simp add: processFiles_append)
  then have "processDirectory FOLDER_PATH assets []
      = Inl (Exit [fullPath @ '': Unsupported file type!''] 1)"
    by (simp add: traversal_as_loop assms(1))
  then show ?thesis
    by (simp add: validateAssetsImages_def allowList_def)
qed

theorem unsupported_file_exits_witness:
  "filesOf FOLDER_PATH assets_example =
     [(''src/assets/.DS_Store'', ''.DS_Store'', []), (''src/assets/tokens/a.jpg'', ''a.jpg'', [])]
     @ (''src/assets/tokens/notes.txt'', ''notes.txt'', [])
       # [(''src/assets/tokens/b.png'', ''b.png'', png_fault)]
   \<and> processFiles
        [(''src/assets/.DS_Store'', ''.DS_Store'', []), (''src/assets/tokens/a.jpg'', ''a.jpg'', [])] []
       = Inr [tokenNameError ''tokens/a.jpg'', dimensionError ''tokens/a.jpg'' None]
   \<and> ''notes.txt'' \<notin> set allowList
   \<and> toLowerCase (extname ''notes.txt'') \<notin> {''.png'', ''.jpg'', ''.jpeg''}
   \<and> validateAssetsImages assets_example
       = Inl (Exit [''src/assets/tokens/notes.txt: Unsupported file type!''] 1)"
proof -
  have f: "filesOf FOLDER_PATH assets_example =
     [(''src/assets/.DS_Store'', ''.DS_Store'', []), (''src/assets/tokens/a.jpg'', ''a.jpg'', [])]
     @ (''src/assets/tokens/notes.txt'', ''notes.txt'', [])
       # [(''src/assets/tokens/b.png'', ''b.png'', png_fault)]"
    by (simp add: assets_example_def FOLDER_PATH_def join_def)
  have e: "toLowerCase (extname ''a.jpg'') = ''.jpg''"
    by (simp add: extname_def toLowerCase_def toLowerChar_def)
  have n: "validateFileName ''tokens/a.jpg'' ''.jpg'' [] = [tokenNameError ''tokens/a.jpg'']"
    by (simp add: validateFileName_def tokenRegex_def hexAddress_def)
  have p: "processFiles
        [(''src/assets/.DS_Store'', ''.DS_Store'', []), (''src/assets/tokens/a.jpg'', ''a.jpg'', [])] []
       = Inr [tokenNameError ''tokens/a.jpg'', dimensionError ''tokens/a.jpg'' None]"
    by (simp add: allowList_def processFile_jpg_empty e relative_def FOLDER_PATH_def n
        validateDimensions_def)
  have a: "''notes.txt'' \<notin> set allowList"
    by (simp add: allowList_def)
  have x: "toLowerCase (extname ''notes.txt'') \<notin> {''.png'', ''.jpg'', ''.jpeg''}"
    by (simp add: extname_def toLowerCase_def toLowerChar_def)
  show ?thesis
    using f p a x unsupported_file_exits [OF f p a x] by simp
qed

section \<open>Claims about the metadata cross-checker\<close>

















end
